theory Spec2Isabelle
  imports Complex_Main "HOL-Library.Multiset" "HOL-Library.AList" "HOL-Library.Log_Nat"
begin

section \<open>Data model\<close>

text \<open>
  A note event is the tuple \<open>(pitch, start, end)\<close> of the piano roll. Pitches are
  Python integers. Times are \<open>float\<close> or \<open>Fraction\<close> in the source
  (\<open>FloatOrFraction\<close>). The renderer only compares and plots them, and Python compares
  a float with a Fraction by their exact values: the renderer's events carry the exact
  value of each time, a rational.
\<close>

type_synonym event = "int \<times> rat \<times> rat"

datatype error = ValueError | IndexError | FileNotFoundError

text \<open>
  The elements of a flattened music21 stream, as far as the converter reads them:
  the class of the element, its offset in the flat stream (\<open>getOffsetBySite\<close>),
  its \<open>quarterLength\<close>, and the MIDI numbers of its pitches. \<open>Unpitched\<close> stands
  for the \<open>NotRest\<close> classes that are neither \<open>note.Note\<close> nor \<open>chord.Chord\<close>;
  \<open>GeneralElement\<close> for everything that the \<open>.notes\<close> filter drops (rests, clefs,
  markings). The type \<open>'t\<close> is the type of the time values.
\<close>

datatype 't element =
    Note (midi: int) (offset: 't) (quarterLength: 't)
  | Chord (midis: "int list") (offset: 't) (quarterLength: 't)
  | Unpitched (offset: 't) (quarterLength: 't)
  | GeneralElement (offset: 't) (quarterLength: 't)

type_synonym 't note_event = "int \<times> 't \<times> 't"

section \<open>Time values: float or Fraction\<close>

text \<open>
  A time of music21 is a \<open>Fraction\<close>, an exact rational, or a \<open>float\<close>, a binary64
  number, given here by its exact value.
\<close>

datatype time = Fraction rat | Float rat



text \<open>Rounding to the nearest integer, a tie going to the even one.\<close>

definition rne :: "rat \<Rightarrow> int" where
  "rne x =
     (let f = \<lfloor>x\<rfloor>; r = x - of_int f
      in if r < 1 / 2 then f else if 1 / 2 < r then f + 1 else if even f then f else f + 1)"

text \<open>The exponent \<open>e\<close> with \<open>2 ^ e \<le> q < 2 ^ (e + 1)\<close>, for positive \<open>q\<close>.\<close>

definition binade :: "rat \<Rightarrow> int" where
  "binade q =
     (let k = bitlen (fst (quotient_of q)) - bitlen (snd (quotient_of q))
      in if 2 powi k \<le> q then k else k - 1)"

text \<open>
  The binary64 number nearest to a rational, a tie going to the even significand:
  53 significant bits, and the spacing \<open>2 ^ - 1074\<close> of the subnormal numbers as the
  finest. This is what \<open>float(q)\<close> returns for a Fraction \<open>q\<close>, and how the sum of two
  floats is rounded. Magnitudes beyond the largest binary64 number (about \<open>1.8e308\<close>),
  where Python gives \<open>inf\<close> or raises \<open>OverflowError\<close>, are not modelled.
\<close>

definition round_double :: "rat \<Rightarrow> rat" where
  "round_double q =
     (if q = 0 then 0
      else let u = max (binade \<bar>q\<bar> - 52) (- 1074)
           in of_int (rne (q / 2 powi u)) * 2 powi u)"

text \<open>
  Python's \<open>a + b\<close> on times. Two Fractions add exactly. When one operand is a float,
  a Fraction operand is first converted with \<open>float\<close>, and the float sum is rounded.
\<close>

fun py_add :: "time \<Rightarrow> time \<Rightarrow> time" where
  "py_add (Fraction a) (Fraction b) = Fraction (a + b)"
| "py_add (Fraction a) (Float b) = Float (round_double (round_double a + b))"
| "py_add (Float a) (Fraction b) = Float (round_double (a + round_double b))"
| "py_add (Float a) (Float b) = Float (round_double (a + b))"

section \<open>The flattener: \<open>music21_stream_to_piano_roll\<close>\<close>

text \<open>
  The functions of this section take the addition of time values, the \<open>+\<close> of
  \<open>absolute_start + element.quarterLength\<close>, as their first argument \<open>add\<close>;
  \<open>py_add\<close> is that addition on floats and Fractions.
\<close>

fun is_not_rest :: "'t element \<Rightarrow> bool" where
  "is_not_rest (Note _ _ _) = True"
| "is_not_rest (Chord _ _ _) = True"
| "is_not_rest (Unpitched _ _) = True"
| "is_not_rest (GeneralElement _ _) = False"

text \<open>\<open>flat_stream.notes\<close>: the elements of class \<open>NotRest\<close>, in stream order.\<close>

definition notes_of :: "'t element list \<Rightarrow> 't element list" where
  "notes_of flat_stream = filter is_not_rest flat_stream"

text \<open>The inner loop over \<open>element.pitches\<close> of a chord, appending to \<open>notes\<close>.\<close>

fun append_pitches ::
  "int list \<Rightarrow> 't \<Rightarrow> 't \<Rightarrow> 't note_event list \<Rightarrow> 't note_event list" where
  "append_pitches [] absolute_start absolute_end notes = notes"
| "append_pitches (pitch # pitches) absolute_start absolute_end notes =
     append_pitches pitches absolute_start absolute_end
       (notes @ [(pitch, absolute_start, absolute_end)])"

text \<open>The loop over \<open>flat_stream.notes\<close>, with the list \<open>notes\<close> as accumulator.\<close>

fun for_elements ::
  "('t \<Rightarrow> 't \<Rightarrow> 't) \<Rightarrow> 't element list \<Rightarrow> 't note_event list \<Rightarrow> 't note_event list" where
  "for_elements add [] notes = notes"
| "for_elements add (Note m off ql # rest) notes =
     (let absolute_start = off;
          absolute_end = add absolute_start ql
      in for_elements add rest (notes @ [(m, absolute_start, absolute_end)]))"
| "for_elements add (Chord ms off ql # rest) notes =
     (let absolute_start = off;
          absolute_end = add absolute_start ql
      in for_elements add rest (append_pitches ms absolute_start absolute_end notes))"
| "for_elements add (_ # rest) notes = for_elements add rest notes"

definition music21_stream_to_piano_roll ::
  "('t \<Rightarrow> 't \<Rightarrow> 't) \<Rightarrow> 't element list \<Rightarrow> 't note_event list" where
  "music21_stream_to_piano_roll add flat_stream = for_elements add (notes_of flat_stream) []"

section \<open>Python and library primitives used by the renderer\<close>

text \<open>\<open>min\<close> and \<open>max\<close> of a list raise \<open>ValueError\<close> on the empty list.\<close>

fun py_min :: "int list \<Rightarrow> error + int" where
  "py_min [] = Inl ValueError"
| "py_min (x # xs) = Inr (fold min xs x)"

fun py_max :: "int list \<Rightarrow> error + int" where
  "py_max [] = Inl ValueError"
| "py_max (x # xs) = Inr (fold max xs x)"

text \<open>
  \<open>xs[i]\<close>: an index below zero counts from the end of the list; an index outside
  \<open>-len(xs) .. len(xs) - 1\<close> raises \<open>IndexError\<close>.
\<close>

definition py_getitem :: "'a list \<Rightarrow> int \<Rightarrow> error + 'a" where
  "py_getitem xs i =
     (if 0 \<le> i \<and> i < int (length xs) then Inr (xs ! nat i)
      else if i < 0 \<and> - int (length xs) \<le> i then Inr (xs ! nat (int (length xs) + i))
      else Inl IndexError)"

text \<open>\<open>xs.index(x)\<close>: the first position of \<open>x\<close>, \<open>ValueError\<close> when it is absent.\<close>

fun py_index :: "'a list \<Rightarrow> 'a \<Rightarrow> error + nat" where
  "py_index [] x = Inl ValueError"
| "py_index (y # ys) x =
     (if y = x then Inr 0
      else case py_index ys x of Inl e \<Rightarrow> Inl e | Inr k \<Rightarrow> Inr (Suc k))"

text \<open>\<open>range(start, stop, 12)\<close>.\<close>

function py_range12 :: "int \<Rightarrow> int \<Rightarrow> int list" where
  "py_range12 start stop = (if start < stop then start # py_range12 (start + 12) stop else [])"
  by pat_completeness auto
termination
  by (relation "measure (\<lambda>(start, stop). nat (stop - start))") auto

text \<open>Decimal rendering of an integer, as an f-string prints it.\<close>

fun str_nat :: "nat \<Rightarrow> string" where
  "str_nat n =
     (if n < 10 then [char_of (48 + n)]
      else str_nat (n div 10) @ [char_of (48 + n mod 10)])"

definition str_int :: "int \<Rightarrow> string" where
  "str_int i = (if i < 0 then CHR ''-'' # str_nat (nat (- i)) else str_nat (nat i))"

text \<open>
  A Python \<open>dict\<close> keeps its keys in insertion order, and assigning to a key that is
  present keeps the key's position: an association list under \<open>AList.update\<close>.
  \<open>dict(items)\<close> inserts the pairs from left to right.
\<close>

type_synonym ('k, 'v) dict = "('k \<times> 'v) list"

definition dict_of_items :: "('k \<times> 'v) list \<Rightarrow> ('k, 'v) dict" where
  "dict_of_items items = fold (\<lambda>item d. AList.update (fst item) (snd item) d) items []"

text \<open>Collects the values of a list of results, stopping at the first exception.\<close>

fun collect :: "(error + 'a) list \<Rightarrow> error + 'a list" where
  "collect [] = Inr []"
| "collect (Inl e # rs) = Inl e"
| "collect (Inr x # rs) = (case collect rs of Inl e \<Rightarrow> Inl e | Inr xs \<Rightarrow> Inr (x # xs))"

text \<open>
  \<open>sorted(items, key=f)\<close>: the keys of all items are computed first (any of them may
  raise), then the items are sorted by key; the sort is stable.
\<close>

definition py_sorted :: "('a \<Rightarrow> error + nat) \<Rightarrow> 'a list \<Rightarrow> error + 'a list" where
  "py_sorted f items =
     (case collect (map f items) of
        Inl e \<Rightarrow> Inl e
      | Inr keys \<Rightarrow> Inr (map snd (sort_key fst (zip keys items))))"

section \<open>The figure and the file system\<close>

text \<open>
  The figure records the calls made on \<open>fig\<close> and \<open>ax\<close>: each \<open>ax.plot\<close> as the
  triple of its x data, y data and colour, the axis limits, titles, ticks, and the
  legend handles (colour and label of each \<open>Line2D\<close>) once \<open>fig.legend\<close> is called.
\<close>

record figure =
  lines :: "(rat list \<times> int list \<times> string) list"
  xlim :: "(rat \<times> rat) option"
  ylim :: "(int \<times> int) option"
  title :: string
  xlabel :: string
  ylabel :: string
  grid :: bool
  yticks :: "int list"
  yticklabels :: "string list"
  legend_handles :: "(string \<times> string) list option"

definition new_figure :: figure where
  "new_figure = \<lparr> lines = [], xlim = None, ylim = None, title = [], xlabel = [],
     ylabel = [], grid = False, yticks = [], yticklabels = [], legend_handles = None \<rparr>"

text \<open>
  What the function can change outside itself: the lines printed, and the files
  written, given the directories that exist.
\<close>

record world =
  stdout :: "string list"
  dirs :: "string list"
  files :: "(string \<times> figure) list"

definition dirname :: "string \<Rightarrow> string" where
  "dirname fname = rev (tl (dropWhile (\<lambda>c. c \<noteq> CHR ''/'') (rev fname)))"

text \<open>
  \<open>fig.savefig(fname)\<close> opens \<open>fname\<close> for writing: \<open>FileNotFoundError\<close> when the
  directory of \<open>fname\<close> does not exist, and nothing is written then.
\<close>

definition savefig :: "figure \<Rightarrow> string \<Rightarrow> world \<Rightarrow> error + world" where
  "savefig fig fname w =
     (if dirname fname \<in> set (dirs w) then Inr (w\<lparr>files := (fname, fig) # files w\<rparr>)
      else Inl FileNotFoundError)"

section \<open>The renderer: \<open>save_piano_roll_fig\<close>\<close>

definition GRAPH_COLORS :: "string list" where
  "GRAPH_COLORS = [''red'', ''green'', ''blue'', ''yellow'', ''purple'', ''orange'', ''cyan'',
     ''magenta'', ''lime'', ''pink'', ''teal'', ''lavender'']"

definition PITCH_CLASSES :: "string list" where
  "PITCH_CLASSES = [''C'', ''C#/Db'', ''D'', ''D#/Eb'', ''E'', ''F'', ''F#/Gb'', ''G'', ''G#/Ab'',
     ''A'', ''A#/Bb'', ''B'']"

text \<open>Lines 26 to 29: the vertical bounds \<open>(min_y, max_y)\<close>.\<close>

definition y_bounds :: "event list \<Rightarrow> error + int \<times> int" where
  "y_bounds piano_roll =
     (case py_min (map fst piano_roll) of
        Inl e \<Rightarrow> Inl e
      | Inr min_pitch \<Rightarrow>
          (case py_max (map fst piano_roll) of
             Inl e \<Rightarrow> Inl e
           | Inr max_pitch \<Rightarrow>
               Inr (min_pitch - (min_pitch mod 12), max_pitch + 13 - (max_pitch mod 12))))"

text \<open>Lines 37 to 41: the loop that draws each event and fills the legend dict.\<close>

fun plot_notes ::
  "event list \<Rightarrow> figure \<times> (string, string) dict \<Rightarrow> error + figure \<times> (string, string) dict"
where
  "plot_notes [] (fig, legend) = Inr (fig, legend)"
| "plot_notes ((pitch, start, end) # rest) (fig, legend) =
     (let pc = pitch mod 12 in
      case py_getitem GRAPH_COLORS pc of
        Inl e \<Rightarrow> Inl e
      | Inr color \<Rightarrow>
          (let fig' = fig\<lparr>lines := lines fig @ [([start, end], [pitch, pitch], color)]\<rparr> in
           case py_getitem GRAPH_COLORS pc of
             Inl e \<Rightarrow> Inl e
           | Inr c \<Rightarrow>
               (case py_getitem PITCH_CLASSES pc of
                  Inl e \<Rightarrow> Inl e
                | Inr name \<Rightarrow> plot_notes rest (fig', AList.update name c legend))))"

text \<open>
  Lines 43 to 53: axis limits, titles, grid and ticks. The float \<open>0.1\<close> added to the
  last end time is modelled as the rational \<open>1 / 10\<close>.
\<close>

definition set_axes :: "event list \<Rightarrow> string \<Rightarrow> int \<Rightarrow> int \<Rightarrow> figure \<Rightarrow> error + figure" where
  "set_axes piano_roll path min_y max_y fig =
     (case (if length piano_roll > 0
            then (case py_getitem piano_roll (- 1) of
                    Inl e \<Rightarrow> Inl e
                  | Inr n \<Rightarrow> Inr (fig\<lparr>xlim := Some (0, snd (snd n) + 1 / 10)\<rparr>))
            else Inr (fig\<lparr>xlim := Some (0, 1)\<rparr>)) of
        Inl e \<Rightarrow> Inl e
      | Inr fig1 \<Rightarrow>
          Inr (fig1\<lparr>ylim := Some (min_y, max_y),
                    title := ''Piano roll for '' @ path,
                    xlabel := ''Time (s)'',
                    ylabel := ''Pitch'',
                    grid := True,
                    yticks := py_range12 min_y max_y,
                    yticklabels := map (\<lambda>i. ''C'' @ str_int (i div 12 - 1) @ ''-('' @ str_int i @ '')'')
                                     (py_range12 min_y max_y)\<rparr>))"

text \<open>Lines 56 to 62: the legend, when \<open>show_legend\<close> is set.\<close>

definition add_legend :: "bool \<Rightarrow> (string, string) dict \<Rightarrow> figure \<Rightarrow> error + figure" where
  "add_legend show_legend legend fig =
     (if show_legend then
        (case py_sorted (\<lambda>item. py_index PITCH_CLASSES (fst item)) legend of
           Inl e \<Rightarrow> Inl e
         | Inr items \<Rightarrow>
             (let legend' = dict_of_items items;
                  colors_to_print = map snd legend';
                  pitch_classes_to_print = map fst legend';
                  handles = map (\<lambda>i. (colors_to_print ! i, pitch_classes_to_print ! i))
                              [0 ..< length colors_to_print]
              in Inr (fig\<lparr>legend_handles := Some handles\<rparr>)))
      else Inr fig)"

text \<open>Lines 63 to 68: saving, with the missing directory caught and reported.\<close>

definition save_or_report :: "figure \<Rightarrow> string \<Rightarrow> string \<Rightarrow> world \<Rightarrow> error + world" where
  "save_or_report fig output_path path w =
     (case savefig fig (output_path @ ''/piano_rolls/'' @ path @ ''.png'') w of
        Inr w' \<Rightarrow> Inr w'
      | Inl FileNotFoundError \<Rightarrow>
          Inr (w\<lparr>stdout := stdout w @
                 [''The directory does not exist for saving the piano roll figure.'']\<rparr>)
      | Inl e \<Rightarrow> Inl e)"

text \<open>
  The whole function. It returns \<open>None\<close> in the source; the model returns the outcome
  (the exception that escapes, or the figure as it is when it is closed), the contents
  of the caller's list object \<open>piano_roll\<close> after the call, and the world after the call.
  The list is sorted in place on line 35, after the bounds and before the loop.
\<close>

definition save_piano_roll_fig ::
  "event list \<Rightarrow> string \<Rightarrow> string \<Rightarrow> bool \<Rightarrow> world \<Rightarrow> (error + figure) \<times> event list \<times> world"
where
  "save_piano_roll_fig piano_roll path output_path show_legend w =
     (case y_bounds piano_roll of
        Inl e \<Rightarrow> (Inl e, piano_roll, w)
      | Inr (min_y, max_y) \<Rightarrow>
          (let piano_roll' = sort_key (\<lambda>n. snd (snd n)) piano_roll in
           case plot_notes piano_roll' (new_figure, []) of
             Inl e \<Rightarrow> (Inl e, piano_roll', w)
           | Inr (fig1, legend) \<Rightarrow>
               (case set_axes piano_roll' path min_y max_y fig1 of
                  Inl e \<Rightarrow> (Inl e, piano_roll', w)
                | Inr fig2 \<Rightarrow>
                    (case add_legend show_legend legend fig2 of
                       Inl e \<Rightarrow> (Inl e, piano_roll', w)
                     | Inr fig3 \<Rightarrow>
                         (case save_or_report fig3 output_path path w of
                            Inl e \<Rightarrow> (Inl e, piano_roll', w)
                          | Inr w' \<Rightarrow> (Inr fig3, piano_roll', w'))))))"

section \<open>Auxiliary notions for the statements\<close>

text \<open>The elements that the converter turns into events.\<close>

fun is_note_or_chord :: "'t element \<Rightarrow> bool" where
  "is_note_or_chord (Note _ _ _) = True"
| "is_note_or_chord (Chord _ _ _) = True"
| "is_note_or_chord _ = False"

text \<open>The events that one element of the stream contributes.\<close>

fun events_of :: "('t \<Rightarrow> 't \<Rightarrow> 't) \<Rightarrow> 't element \<Rightarrow> 't note_event list" where
  "events_of add (Note p t d) = [(p, t, add t d)]"
| "events_of add (Chord ps t d) = map (\<lambda>p. (p, t, add t d)) ps"
| "events_of add _ = []"



text \<open>The pitch class of an event, as the list index that the loop computes.\<close>

definition pitch_class_of :: "event \<Rightarrow> nat" where
  "pitch_class_of n = nat (fst n mod 12)"

text \<open>The legend dict item of pitch class \<open>i\<close>: name and colour.\<close>

definition legend_item :: "nat \<Rightarrow> string \<times> string" where
  "legend_item i = (PITCH_CLASSES ! i, GRAPH_COLORS ! i)"

text \<open>The \<open>ax.plot\<close> call that the loop makes for an event.\<close>

definition note_line :: "event \<Rightarrow> rat list \<times> int list \<times> string" where
  "note_line n = ([fst (snd n), snd (snd n)], [fst n, fst n], GRAPH_COLORS ! pitch_class_of n)"

text \<open>The colours of the lines that the loop draws for a list of events, in order.\<close>

definition colors_drawn :: "event list \<Rightarrow> error + string list" where
  "colors_drawn evs =
     (case plot_notes evs (new_figure, []) of
        Inl e \<Rightarrow> Inl e
      | Inr (fig, legend) \<Rightarrow> Inr (map (\<lambda>l. snd (snd l)) (lines fig)))"

text \<open>Appends a pitch class to the list of those seen so far, unless it is there.\<close>

definition add_new :: "nat \<Rightarrow> nat list \<Rightarrow> nat list" where
  "add_new i js = (if i \<in> set js then js else js @ [i])"

section \<open>Properties of the flattener\<close>

lemma append_pitches_map:
  "append_pitches ps s e acc = acc @ map (\<lambda>p. (p, s, e)) ps"
  by (induction ps arbitrary: acc) simp_all

lemma for_elements_concat:
  "for_elements add es acc = acc @ concat (map (events_of add) es)"
proof (induction es arbitrary: acc)
  case Nil
  show ?case by simp
next
  case (Cons el es)
  show ?case by (cases el) (simp_all add: Cons.IH append_pitches_map)
qed

lemma events_of_filter:
  "(\<And>x. \<not> P x \<Longrightarrow> events_of add x = []) \<Longrightarrow>
   concat (map (events_of add) (filter P xs)) = concat (map (events_of add) xs)"
  by (induction xs) simp_all

lemma events_of_not_sounding: "\<not> is_note_or_chord x \<Longrightarrow> events_of add x = []"
  by (cases x) simp_all

lemma events_of_rest: "\<not> is_not_rest x \<Longrightarrow> events_of add x = []"
  by (cases x) simp_all

lemma piano_roll_concat:
  "music21_stream_to_piano_roll add flat_stream = concat (map (events_of add) flat_stream)"
  by (simp add: music21_stream_to_piano_roll_def notes_of_def for_elements_concat
      events_of_filter events_of_rest)

text \<open>
  Claim C4. When the only note or chord of the flattened stream is one single note
  with pitch \<open>p\<close>, offset \<open>t\<close> and duration \<open>d\<close> (other elements, which are neither a
  note nor a chord, may be present), the converter returns exactly the one tuple
  \<open>(p, t, t + d)\<close>, with the \<open>+\<close> of the source.
\<close>

theorem single_note_one_tuple:
  assumes "filter is_note_or_chord flat_stream = [Note p t d]"
  shows "music21_stream_to_piano_roll add flat_stream = [(p, t, add t d)]"
proof -
  have "concat (map (events_of add) flat_stream)
      = concat (map (events_of add) (filter is_note_or_chord flat_stream))"
    by (simp add: events_of_filter events_of_not_sounding)
  then show ?thesis
    by (simp add: piano_roll_concat assms)
qed

theorem single_note_one_tuple_witness:
  "filter is_note_or_chord
     [GeneralElement (Float 0) (Float 4), Note 60 (Fraction (3 / 2)) (Fraction (1 / 2)),
      Unpitched (Float 2) (Float 1)]
     = [Note 60 (Fraction (3 / 2)) (Fraction (1 / 2))]
   \<and> music21_stream_to_piano_roll py_add
     [GeneralElement (Float 0) (Float 4), Note 60 (Fraction (3 / 2)) (Fraction (1 / 2)),
      Unpitched (Float 2) (Float 1)]
     = [(60, Fraction (3 / 2), Fraction 2)]"
  using single_note_one_tuple
    [of "[GeneralElement (Float 0) (Float 4), Note 60 (Fraction (3 / 2)) (Fraction (1 / 2)),
          Unpitched (Float 2) (Float 1)]" 60 "Fraction (3 / 2)" "Fraction (1 / 2)" py_add]
  by simp

text \<open>
  Claim C5. A chord of \<open>k\<close> pitches anywhere in the flattened stream contributes, at
  its place in the output, exactly \<open>k\<close> tuples: one per pitch, in the order of the
  chord's pitches, all with the chord's offset as start and offset plus duration as end.
\<close>

theorem chord_k_tuples:
  "music21_stream_to_piano_roll add (before @ Chord ps t d # after)
     = music21_stream_to_piano_roll add before
       @ map (\<lambda>p. (p, t, add t d)) ps
       @ music21_stream_to_piano_roll add after
   \<and> length (map (\<lambda>p. (p, t, add t d)) ps) = length ps"
  by (simp add: piano_roll_concat)

subsection \<open>Rounding never passes a binary64 number\<close>


















section \<open>Properties of the renderer\<close>

lemma length_GRAPH_COLORS: "length GRAPH_COLORS = 12"
  by (simp add: GRAPH_COLORS_def)

lemma length_PITCH_CLASSES: "length PITCH_CLASSES = 12"
  by (simp add: PITCH_CLASSES_def)

lemma distinct_PITCH_CLASSES: "distinct PITCH_CLASSES"
  by (simp add: PITCH_CLASSES_def)

lemma pitch_class_of_less: "pitch_class_of n < 12"
  by (simp add: pitch_class_of_def nat_less_iff)

lemma getitem_in_range:
  "0 \<le> i \<Longrightarrow> i < int (length xs) \<Longrightarrow> py_getitem xs i = Inr (xs ! nat i)"
  by (simp add: py_getitem_def)

lemma getitem_color: "py_getitem GRAPH_COLORS (p mod 12) = Inr (GRAPH_COLORS ! nat (p mod 12))"
  by (rule getitem_in_range) (simp_all add: length_GRAPH_COLORS)

lemma getitem_class: "py_getitem PITCH_CLASSES (p mod 12) = Inr (PITCH_CLASSES ! nat (p mod 12))"
  by (rule getitem_in_range) (simp_all add: length_PITCH_CLASSES)

lemma plot_notes_eq:
  "plot_notes evs (fig, lg) =
     Inr (fig\<lparr>lines := lines fig @ map note_line evs\<rparr>,
          fold (\<lambda>n. AList.update (PITCH_CLASSES ! pitch_class_of n) (GRAPH_COLORS ! pitch_class_of n))
            evs lg)"
proof (induction evs arbitrary: fig lg)
  case Nil
  show ?case by simp
next
  case (Cons ev evs)
  obtain p s e where ev: "ev = (p, s, e)" by (cases ev)
  show ?case
    by (simp add: ev getitem_color getitem_class Cons.IH note_line_def pitch_class_of_def Let_def)
qed

lemma class_eq_iff:
  "i < 12 \<Longrightarrow> j < 12 \<Longrightarrow> PITCH_CLASSES ! i = PITCH_CLASSES ! j \<longleftrightarrow> i = j"
  using distinct_PITCH_CLASSES by (simp add: nth_eq_iff_index_eq length_PITCH_CLASSES)

lemma fst_legend_item: "fst (legend_item j) = PITCH_CLASSES ! j"
  by (simp add: legend_item_def)

lemma update_legend_items:
  "i < 12 \<Longrightarrow> \<forall>j \<in> set js. j < 12 \<Longrightarrow>
   AList.update (PITCH_CLASSES ! i) (GRAPH_COLORS ! i) (map legend_item js)
     = map legend_item (add_new i js)"
proof (induction js)
  case Nil
  show ?case by (simp add: add_new_def legend_item_def)
next
  case (Cons j js)
  then have IH: "AList.update (PITCH_CLASSES ! i) (GRAPH_COLORS ! i) (map legend_item js)
     = map legend_item (add_new i js)" and j: "j < 12"
    by simp_all
  show ?case
  proof (cases "j = i")
    case True
    then show ?thesis by (simp add: add_new_def fst_legend_item legend_item_def [symmetric])
  next
    case False
    with j Cons.prems(1) have "PITCH_CLASSES ! j \<noteq> PITCH_CLASSES ! i"
      by (simp add: class_eq_iff)
    with False IH show ?thesis
      by (simp add: add_new_def fst_legend_item split: if_splits)
  qed
qed

lemma add_new_bound: "i < 12 \<Longrightarrow> \<forall>j \<in> set js. j < 12 \<Longrightarrow> \<forall>j \<in> set (add_new i js). j < 12"
  by (simp add: add_new_def)

lemma fold_update_legend_items:
  "\<forall>x \<in> set xs. h x < 12 \<Longrightarrow> \<forall>j \<in> set js. j < 12 \<Longrightarrow>
   fold (\<lambda>x. AList.update (PITCH_CLASSES ! h x) (GRAPH_COLORS ! h x)) xs (map legend_item js)
   = map legend_item (fold (\<lambda>x. add_new (h x)) xs js)"
proof (induction xs arbitrary: js)
  case Nil
  show ?case by simp
next
  case (Cons x xs)
  from Cons.prems have "\<forall>j \<in> set (add_new (h x) js). j < 12"
    by (intro add_new_bound) simp_all
  then show ?case
    using Cons.prems by (simp add: update_legend_items Cons.IH)
qed

lemma set_fold_add_new:
  "set (fold (\<lambda>n. add_new (pitch_class_of n)) evs js) = set js \<union> pitch_class_of ` set evs"
  by (induction evs arbitrary: js) (auto simp: add_new_def)

lemma distinct_fold_add_new:
  "distinct js \<Longrightarrow> distinct (fold (\<lambda>n. add_new (pitch_class_of n)) evs js)"
  by (induction evs arbitrary: js) (auto simp: add_new_def)


lemma fold_add_new_distinct:
  "distinct js \<Longrightarrow> set js \<inter> set acc = {} \<Longrightarrow> fold add_new js acc = acc @ js"
  by (induction js arbitrary: acc) (auto simp: add_new_def)

lemma py_index_nth:
  "distinct xs \<Longrightarrow> i < length xs \<Longrightarrow> py_index xs (xs ! i) = Inr i"
proof (induction xs arbitrary: i)
  case Nil
  then show ?case by simp
next
  case (Cons x xs)
  show ?case
  proof (cases i)
    case 0
    then show ?thesis by simp
  next
    case (Suc k)
    with Cons.prems have "x \<noteq> xs ! k" and "py_index xs (xs ! k) = Inr k"
      by (auto simp: Cons.IH)
    with Suc show ?thesis by simp
  qed
qed

lemma collect_Inr: "collect (map (\<lambda>x. Inr (g x)) xs) = Inr (map g xs)"
  by (induction xs) simp_all

lemma insort_key_map:
  "insort_key f (g x) (map g ys) = map g (insort_key (\<lambda>y. f (g y)) x ys)"
  by (induction ys) simp_all

lemma sort_key_map: "sort_key f (map g xs) = map g (sort_key (\<lambda>y. f (g y)) xs)"
  by (induction xs) (simp_all add: insort_key_map)

lemma py_sorted_legend_items:
  assumes "\<forall>j \<in> set js. j < 12"
  shows "py_sorted (\<lambda>item. py_index PITCH_CLASSES (fst item)) (map legend_item js)
           = Inr (map legend_item (sort js))"
proof -
  have eq: "map (\<lambda>item. py_index PITCH_CLASSES (fst item)) (map legend_item js)
          = map (\<lambda>j. Inr (id j)) js"
    using assms
    by (simp add: fst_legend_item py_index_nth distinct_PITCH_CLASSES length_PITCH_CLASSES)
  have "collect (map (\<lambda>item. py_index PITCH_CLASSES (fst item)) (map legend_item js))
          = collect (map (\<lambda>j. Inr (id j)) js)"
    by (simp only: eq)
  also have "\<dots> = Inr (map id js)"
    by (rule collect_Inr)
  finally have keys:
    "collect (map (\<lambda>item. py_index PITCH_CLASSES (fst item)) (map legend_item js)) = Inr js"
    by simp
  show ?thesis
    unfolding py_sorted_def keys
    by (simp add: zip_map2 zip_same_conv_map sort_key_map comp_def)
qed

lemma sort_classes:
  assumes "distinct js" and "\<forall>j \<in> set js. j < 12"
  shows "sort js = filter (\<lambda>i. i \<in> set js) [0 ..< 12]"
proof (rule sorted_distinct_set_unique)
  show "sorted (sort js)" by simp
  show "distinct (sort js)" using assms(1) by simp
  show "sorted (filter (\<lambda>i. i \<in> set js) [0 ..< 12])" by (rule sorted_wrt_filter) simp
  show "distinct (filter (\<lambda>i. i \<in> set js) [0 ..< 12])" by simp
  show "set (sort js) = set (filter (\<lambda>i. i \<in> set js) [0 ..< 12])"
    using assms(2) by auto
qed

lemma dict_of_legend_items:
  assumes "distinct js" and "\<forall>j \<in> set js. j < 12"
  shows "dict_of_items (map legend_item js) = map legend_item js"
proof -
  have "dict_of_items (map legend_item js)
          = fold (\<lambda>j. AList.update (PITCH_CLASSES ! j) (GRAPH_COLORS ! j)) js (map legend_item [])"
    by (simp add: dict_of_items_def fold_map comp_def legend_item_def)
  also have "\<dots> = map legend_item (fold (\<lambda>j. add_new j) js [])"
    using assms(2) by (subst fold_update_legend_items) simp_all
  also have "fold (\<lambda>j. add_new j) js [] = js"
    using assms(1) by (simp add: fold_add_new_distinct)
  finally show ?thesis .
qed

lemma handles_of_dict:
  "map (\<lambda>i. (map snd d ! i, map fst d ! i)) [0 ..< length (map snd d)]
     = map (\<lambda>item. (snd item, fst item)) d"
  by (rule nth_equalityI) simp_all

lemma add_legend_after_loop:
  "add_legend True
     (fold (\<lambda>n. AList.update (PITCH_CLASSES ! pitch_class_of n) (GRAPH_COLORS ! pitch_class_of n))
        evs []) fig
   = Inr (fig\<lparr>legend_handles := Some (map (\<lambda>i. (GRAPH_COLORS ! i, PITCH_CLASSES ! i))
            (filter (\<lambda>i. i \<in> pitch_class_of ` set evs) [0 ..< 12]))\<rparr>)"
proof -
  define js where "js = fold (\<lambda>n. add_new (pitch_class_of n)) evs []"
  have set_js: "set js = pitch_class_of ` set evs"
    by (simp add: js_def set_fold_add_new)
  have dist: "distinct js"
    by (simp add: js_def distinct_fold_add_new)
  have bound: "\<forall>j \<in> set js. j < 12"
    by (auto simp: set_js pitch_class_of_less)
  have legend: "fold (\<lambda>n. AList.update (PITCH_CLASSES ! pitch_class_of n)
                   (GRAPH_COLORS ! pitch_class_of n)) evs [] = map legend_item js"
    using fold_update_legend_items [of evs pitch_class_of "[]"]
    by (simp add: pitch_class_of_less js_def)
  have sorted_js: "distinct (sort js)" "\<forall>j \<in> set (sort js). j < 12"
    using dist bound by simp_all
  have "add_legend True (map legend_item js) fig
      = Inr (fig\<lparr>legend_handles :=
               Some (map (\<lambda>item. (snd item, fst item)) (map legend_item (sort js)))\<rparr>)"
    by (simp add: add_legend_def py_sorted_legend_items [OF bound]
        dict_of_legend_items [OF sorted_js] Let_def handles_of_dict del: map_map length_map)
  also have "map (\<lambda>item. (snd item, fst item)) (map legend_item (sort js))
      = map (\<lambda>i. (GRAPH_COLORS ! i, PITCH_CLASSES ! i)) (sort js)"
    by (simp add: legend_item_def)
  finally show ?thesis
    by (simp add: legend sort_classes [OF dist bound] set_js)
qed


lemma py_min_Min: "xs \<noteq> [] \<Longrightarrow> py_min xs = Inr (Min (set xs))"
  by (cases xs) (simp_all add: Min.set_eq_fold [symmetric])

lemma py_max_Max: "xs \<noteq> [] \<Longrightarrow> py_max xs = Inr (Max (set xs))"
  by (cases xs) (simp_all add: Max.set_eq_fold [symmetric])

lemma y_bounds_empty: "y_bounds [] = Inl ValueError"
  by (simp add: y_bounds_def)

lemma y_bounds_nonempty:
  assumes "piano_roll \<noteq> []"
  shows "y_bounds piano_roll =
           Inr (Min (fst ` set piano_roll) - Min (fst ` set piano_roll) mod 12,
                Max (fst ` set piano_roll) + 13 - Max (fst ` set piano_roll) mod 12)"
  using assms by (simp add: y_bounds_def py_min_Min py_max_Max)

lemma getitem_last: "xs \<noteq> [] \<Longrightarrow> py_getitem xs (- 1) = Inr (last xs)"
proof -
  assume ne: "xs \<noteq> []"
  then have len: "0 < length xs" by simp
  then have "nat (int (length xs) + - 1) = length xs - 1" by linarith
  moreover have "- int (length xs) \<le> - 1" using len by linarith
  ultimately show ?thesis
    using ne by (simp add: py_getitem_def last_conv_nth del: One_nat_def)
qed

lemma set_axes_nonempty:
  assumes "piano_roll \<noteq> []"
  shows "set_axes piano_roll path min_y max_y fig =
     Inr (fig\<lparr>xlim := Some (0, snd (snd (last piano_roll)) + 1 / 10),
              ylim := Some (min_y, max_y),
              title := ''Piano roll for '' @ path,
              xlabel := ''Time (s)'',
              ylabel := ''Pitch'',
              grid := True,
              yticks := py_range12 min_y max_y,
              yticklabels := map (\<lambda>i. ''C'' @ str_int (i div 12 - 1) @ ''-('' @ str_int i @ '')'')
                               (py_range12 min_y max_y)\<rparr>)"
  using assms by (simp add: set_axes_def getitem_last)

lemma add_legend_off: "add_legend False legend fig = Inr fig"
  by (simp add: add_legend_def)

lemma save_or_report_eq:
  "save_or_report fig output_path path w =
     Inr (if dirname (output_path @ ''/piano_rolls/'' @ path @ ''.png'') \<in> set (dirs w)
          then w\<lparr>files := (output_path @ ''/piano_rolls/'' @ path @ ''.png'', fig) # files w\<rparr>
          else w\<lparr>stdout := stdout w @
                 [''The directory does not exist for saving the piano roll figure.'']\<rparr>)"
  by (simp add: save_or_report_def savefig_def)

lemma sort_key_nonempty: "xs \<noteq> [] \<Longrightarrow> sort_key f xs \<noteq> []"
  by (metis length_sort length_0_conv)

lemma stages_nonempty:
  assumes "piano_roll \<noteq> []"
  shows "save_piano_roll_fig piano_roll path output_path show_legend w =
     (let piano_roll' = sort_key (\<lambda>n. snd (snd n)) piano_roll;
          fig1 = new_figure\<lparr>lines := lines new_figure @ map note_line piano_roll'\<rparr>;
          legend = fold (\<lambda>n. AList.update (PITCH_CLASSES ! pitch_class_of n)
                      (GRAPH_COLORS ! pitch_class_of n)) piano_roll' []
      in case set_axes piano_roll' path
                (Min (fst ` set piano_roll) - Min (fst ` set piano_roll) mod 12)
                (Max (fst ` set piano_roll) + 13 - Max (fst ` set piano_roll) mod 12) fig1 of
           Inl e \<Rightarrow> (Inl e, piano_roll', w)
         | Inr fig2 \<Rightarrow>
             (case add_legend show_legend legend fig2 of
                Inl e \<Rightarrow> (Inl e, piano_roll', w)
              | Inr fig3 \<Rightarrow>
                  (case save_or_report fig3 output_path path w of
                     Inl e \<Rightarrow> (Inl e, piano_roll', w)
                   | Inr w' \<Rightarrow> (Inr fig3, piano_roll', w'))))"
  unfolding save_piano_roll_fig_def y_bounds_nonempty [OF assms] plot_notes_eq Let_def
  by simp


lemma save_nonempty:
  assumes "piano_roll \<noteq> []"
  shows "\<exists>fig. save_piano_roll_fig piano_roll path output_path show_legend w =
           (Inr fig, sort_key (\<lambda>n. snd (snd n)) piano_roll,
            if dirname (output_path @ ''/piano_rolls/'' @ path @ ''.png'') \<in> set (dirs w)
            then w\<lparr>files := (output_path @ ''/piano_rolls/'' @ path @ ''.png'', fig) # files w\<rparr>
            else w\<lparr>stdout := stdout w @
                   [''The directory does not exist for saving the piano roll figure.'']\<rparr>)
         \<and> lines fig = map note_line (sort_key (\<lambda>n. snd (snd n)) piano_roll)
         \<and> xlim fig = Some (0, snd (snd (last (sort_key (\<lambda>n. snd (snd n)) piano_roll))) + 1 / 10)
         \<and> ylim fig = Some (Min (fst ` set piano_roll) - Min (fst ` set piano_roll) mod 12,
                            Max (fst ` set piano_roll) + 13 - Max (fst ` set piano_roll) mod 12)
         \<and> legend_handles fig =
             (if show_legend
              then Some (map (\<lambda>i. (GRAPH_COLORS ! i, PITCH_CLASSES ! i))
                     (filter (\<lambda>i. i \<in> pitch_class_of ` set piano_roll) [0 ..< 12]))
              else None)"
proof -
  define roll' where "roll' = sort_key (\<lambda>n. snd (snd n)) piano_roll"
  define lo where "lo = Min (fst ` set piano_roll) - Min (fst ` set piano_roll) mod 12"
  define hi where "hi = Max (fst ` set piano_roll) + 13 - Max (fst ` set piano_roll) mod 12"
  define fig1 where "fig1 = new_figure\<lparr>lines := lines new_figure @ map note_line roll'\<rparr>"
  define legend where "legend = fold (\<lambda>n. AList.update (PITCH_CLASSES ! pitch_class_of n)
                      (GRAPH_COLORS ! pitch_class_of n)) roll' []"
  define handles where "handles = map (\<lambda>i. (GRAPH_COLORS ! i, PITCH_CLASSES ! i))
                     (filter (\<lambda>i. i \<in> pitch_class_of ` set piano_roll) [0 ..< 12])"
  define fig3 where "fig3 fig2 = (if show_legend then fig2\<lparr>legend_handles := Some handles\<rparr> else fig2)"
    for fig2 :: figure
  have ne: "roll' \<noteq> []"
    unfolding roll'_def using assms by (rule sort_key_nonempty)
  obtain fig2 where ax: "set_axes roll' path lo hi fig1 = Inr fig2"
    and f2: "lines fig2 = lines fig1" "xlim fig2 = Some (0, snd (snd (last roll')) + 1 / 10)"
      "ylim fig2 = Some (lo, hi)" "legend_handles fig2 = legend_handles fig1"
    by (simp add: set_axes_nonempty [OF ne])
  have lg: "add_legend show_legend legend fig2 = Inr (fig3 fig2)"
  proof (cases show_legend)
    case True
    have "set roll' = set piano_roll" by (simp add: roll'_def)
    with True show ?thesis
      using add_legend_after_loop [of roll' fig2]
      by (simp add: fig3_def legend_def handles_def)
  next
    case False
    then show ?thesis by (simp add: fig3_def add_legend_off)
  qed
  have run: "save_piano_roll_fig piano_roll path output_path show_legend w =
           (Inr (fig3 fig2), roll',
            if dirname (output_path @ ''/piano_rolls/'' @ path @ ''.png'') \<in> set (dirs w)
            then w\<lparr>files := (output_path @ ''/piano_rolls/'' @ path @ ''.png'', fig3 fig2) # files w\<rparr>
            else w\<lparr>stdout := stdout w @
                   [''The directory does not exist for saving the piano roll figure.'']\<rparr>)"
    unfolding stages_nonempty [OF assms] Let_def
    unfolding roll'_def [symmetric] lo_def [symmetric] hi_def [symmetric]
      fig1_def [symmetric] legend_def [symmetric]
    by (simp add: ax lg save_or_report_eq)
  have "lines (fig3 fig2) = map note_line roll'"
    by (simp add: fig3_def f2 fig1_def new_figure_def)
  moreover have "xlim (fig3 fig2) = Some (0, snd (snd (last roll')) + 1 / 10)"
    by (simp add: fig3_def f2)
  moreover have "ylim (fig3 fig2) = Some (lo, hi)"
    by (simp add: fig3_def f2)
  moreover have "legend_handles (fig3 fig2) = (if show_legend then Some handles else None)"
    by (simp add: fig3_def f2 fig1_def new_figure_def)
  ultimately show ?thesis
    using run unfolding roll'_def lo_def hi_def handles_def by blast
qed


lemma pitch_class_of_fun: "pitch_class_of = (\<lambda>n. nat (fst n mod 12))"
  by (simp add: fun_eq_iff pitch_class_of_def)

lemma roll_after_call:
  "fst (snd (save_piano_roll_fig piano_roll path output_path show_legend w))
     = sort_key (\<lambda>n. snd (snd n)) piano_roll"
proof (cases "piano_roll = []")
  case True
  then show ?thesis by (simp add: save_piano_roll_fig_def y_bounds_empty)
next
  case False
  from save_nonempty [OF False, of path output_path show_legend w]
  show ?thesis by auto
qed

lemma missing_dir_logged:
  assumes "piano_roll \<noteq> []"
    and "dirname (output_path @ ''/piano_rolls/'' @ path @ ''.png'') \<notin> set (dirs w)"
  shows "\<exists>fig. save_piano_roll_fig piano_roll path output_path show_legend w =
           (Inr fig, sort_key (\<lambda>n. snd (snd n)) piano_roll,
            w\<lparr>stdout := stdout w @
                   [''The directory does not exist for saving the piano roll figure.'']\<rparr>)"
  using save_nonempty [OF assms(1), of path output_path show_legend w] assms(2)
  by auto

lemma set_axes_empty:
  "map_sum id xlim (set_axes [] path min_y max_y fig) = Inr (Some (0, 1))"
  by (simp add: set_axes_def)

text \<open>
  Claim C1. For the empty piano roll the call does not complete: \<open>min\<close> of the empty
  list raises \<open>ValueError\<close> on line 26, before any figure exists, so no x-axis bound
  is set. The branch of line 46 that would set the bounds to \<open>(0, 1)\<close> is never reached
  (\<open>set_axes_empty\<close> above shows what it would do).
\<close>

theorem empty_roll_raises:
  "save_piano_roll_fig [] path output_path show_legend w = (Inl ValueError, [], w)"
  by (simp add: save_piano_roll_fig_def y_bounds_empty)

text \<open>
  Claim C3. With the output directory missing and the piano roll empty, the exception
  \<open>ValueError\<close> of line 26 escapes the function; nothing is printed and no file is
  written. For a non-empty piano roll the missing directory is reported and the call
  returns (\<open>missing_dir_logged\<close> above).
\<close>

theorem empty_roll_missing_dir_raises:
  "save_piano_roll_fig [] ''song'' ''.'' False \<lparr>stdout = [], dirs = [], files = []\<rparr>
     = (Inl ValueError, [], \<lparr>stdout = [], dirs = [], files = []\<rparr>)"
  by (simp add: save_piano_roll_fig_def y_bounds_empty)

text \<open>
  Claim C2, as the code has it. For every non-empty piano roll the call returns with the
  vertical bounds \<open>(min_y, max_y)\<close>, where \<open>min_y\<close> is the minimum pitch rounded down to
  a multiple of 12, and \<open>max_y\<close> is \<open>max_pitch + 13 - max_pitch mod 12\<close>: one more than
  the first multiple of 12 strictly above the maximum pitch.
\<close>

theorem vertical_bounds:
  assumes "piano_roll \<noteq> []"
  shows "\<exists>fig min_y max_y.
           fst (save_piano_roll_fig piano_roll path output_path show_legend w) = Inr fig
         \<and> ylim fig = Some (min_y, max_y)
         \<and> min_y = Min (fst ` set piano_roll) - Min (fst ` set piano_roll) mod 12
         \<and> max_y = Max (fst ` set piano_roll) + 13 - Max (fst ` set piano_roll) mod 12
         \<and> min_y mod 12 = 0
         \<and> min_y \<le> Min (fst ` set piano_roll) \<and> Min (fst ` set piano_roll) < min_y + 12
         \<and> (max_y - 1) mod 12 = 0
         \<and> Max (fst ` set piano_roll) < max_y - 1 \<and> max_y - 1 \<le> Max (fst ` set piano_roll) + 12"
proof -
  obtain fig where
    "fst (save_piano_roll_fig piano_roll path output_path show_legend w) = Inr fig"
    and "ylim fig = Some (Min (fst ` set piano_roll) - Min (fst ` set piano_roll) mod 12,
                          Max (fst ` set piano_roll) + 13 - Max (fst ` set piano_roll) mod 12)"
    using save_nonempty [OF assms, of path output_path show_legend w] by auto
  moreover have "(m - m mod 12) mod 12 = 0" "m - m mod 12 \<le> m" "m < m - m mod 12 + 12"
    "(m + 13 - m mod 12 - 1) mod 12 = 0" "m < m + 13 - m mod 12 - 1"
    "m + 13 - m mod 12 - 1 \<le> m + 12" for m :: int
    by presburger+
  ultimately show ?thesis by blast
qed

theorem vertical_bounds_witness:
  "[(60, 0, 1), (72, 1, 2)] \<noteq> ([] :: event list)
   \<and> (\<exists>fig. fst (save_piano_roll_fig [(60, 0, 1), (72, 1, 2)] ''song'' ''.'' False
               \<lparr>stdout = [], dirs = [], files = []\<rparr>) = Inr fig
          \<and> ylim fig = Some (60, 85))"
  using vertical_bounds [of "[(60, 0, 1), (72, 1, 2)]" "''song''" "''.''" False
      "\<lparr>stdout = [], dirs = [], files = []\<rparr>"]
  by simp

text \<open>
  For notes spanning MIDI 60 to 72 the bounds are \<open>(60, 85)\<close>: the upper bound is not
  a multiple of 12.
\<close>

theorem upper_bound_not_octave_boundary:
  "map_sum id ylim (fst (save_piano_roll_fig [(60, 0, 1), (72, 1, 2)] ''song'' ''.'' False
      \<lparr>stdout = [], dirs = [''./piano_rolls''], files = []\<rparr>)) = Inr (Some (60, 85))
   \<and> \<not> (12 :: int) dvd 85"
proof -
  obtain fig where "fst (save_piano_roll_fig [(60, 0, 1), (72, 1, 2)] ''song'' ''.'' False
      \<lparr>stdout = [], dirs = [''./piano_rolls''], files = []\<rparr>) = Inr fig"
    and "ylim fig = Some (60, 85)"
    using save_nonempty [of "[(60, 0, 1), (72, 1, 2)]" "''song''" "''.''" False
        "\<lparr>stdout = [], dirs = [''./piano_rolls''], files = []\<rparr>"]
    by auto
  then show ?thesis by simp
qed

text \<open>
  Claim C6. After the call the caller's list is in ascending order of end time, holds
  the same events as before, and events with equal end times keep their input order.
\<close>

theorem sorted_in_place:
  "(let roll' = fst (snd (save_piano_roll_fig piano_roll path output_path show_legend w))
    in sorted (map (\<lambda>n. snd (snd n)) roll')
     \<and> mset roll' = mset piano_roll
     \<and> (\<forall>t. filter (\<lambda>n. snd (snd n) = t) roll' = filter (\<lambda>n. snd (snd n) = t) piano_roll))"
  by (simp add: roll_after_call sort_key_stable)

text \<open>
  Claim C7. The colour of the line drawn for an event is the palette entry at
  \<open>pitch mod 12\<close>; so pitch \<open>p\<close> and pitch \<open>p + 12\<close> get the same colour, whatever
  their times.
\<close>

theorem color_by_pitch_class:
  "colors_drawn evs = Inr (map (\<lambda>n. GRAPH_COLORS ! nat (fst n mod 12)) evs)
   \<and> colors_drawn [(p + 12, s, e)] = colors_drawn [(p, s', e')]"
proof -
  have "colors_drawn xs = Inr (map (\<lambda>n. GRAPH_COLORS ! nat (fst n mod 12)) xs)" for xs
    by (simp add: colors_drawn_def plot_notes_eq new_figure_def note_line_def
        pitch_class_of_def comp_def)
  then show ?thesis by simp
qed

text \<open>
  Claim C8. With \<open>show_legend\<close> set, a call on a non-empty piano roll returns with a
  legend of exactly one handle per pitch class present among the events, in the order
  of the pitch-class table, each with the colour and the name of its class. (On the
  empty piano roll no legend is built: see C1.)
\<close>

theorem legend_entries:
  assumes "piano_roll \<noteq> []"
  shows "\<exists>fig. fst (save_piano_roll_fig piano_roll path output_path True w) = Inr fig
         \<and> legend_handles fig =
             Some (map (\<lambda>i. (GRAPH_COLORS ! i, PITCH_CLASSES ! i))
                (filter (\<lambda>i. i \<in> (\<lambda>n. nat (fst n mod 12)) ` set piano_roll) [0 ..< 12]))"
  using save_nonempty [OF assms, of path output_path True w]
  by (auto simp: pitch_class_of_fun)

theorem legend_entries_witness:
  "[(61, 0, 2), (72, 1, 2), (60, 0, 1), (49, 3, 4)] \<noteq> ([] :: event list)
   \<and> (\<exists>fig. fst (save_piano_roll_fig [(61, 0, 2), (72, 1, 2), (60, 0, 1), (49, 3, 4)]
               ''song'' ''.'' True \<lparr>stdout = [], dirs = [], files = []\<rparr>) = Inr fig
          \<and> legend_handles fig = Some [(''red'', ''C''), (''green'', ''C#/Db'')])"
proof -
  have upt: "[0 ..< 12] = [0, 1, 2, 3, 4, 5, 6, 7, 8, 9, 10, 11 :: nat]"
    by code_simp
  show ?thesis
    using legend_entries [of "[(61, 0, 2), (72, 1, 2), (60, 0, 1), (49, 3, 4)]" "''song''" "''.''"
        "\<lparr>stdout = [], dirs = [], files = []\<rparr>"]
    by (simp add: GRAPH_COLORS_def PITCH_CLASSES_def upt)
qed

text \<open>
  Claim C10. For every integer pitch \<open>p\<close>, \<open>p mod 12\<close> is between 0 and 11, both
  table lookups of the loop succeed, and the loop never raises.
\<close>

theorem pitch_class_index_in_bounds:
  "0 \<le> p mod 12
   \<and> p mod 12 < int (length GRAPH_COLORS) \<and> p mod 12 < int (length PITCH_CLASSES)
   \<and> py_getitem GRAPH_COLORS (p mod 12) = Inr (GRAPH_COLORS ! nat (p mod 12))
   \<and> py_getitem PITCH_CLASSES (p mod 12) = Inr (PITCH_CLASSES ! nat (p mod 12))
   \<and> (\<exists>st'. plot_notes evs st = Inr st')"
proof -
  obtain fig lg where "st = (fig, lg)" by (cases st)
  then have "\<exists>st'. plot_notes evs st = Inr st'"
    by (simp add: plot_notes_eq)
  then show ?thesis
    by (simp add: getitem_color getitem_class length_GRAPH_COLORS length_PITCH_CLASSES)
qed

end
